theory Spec2Isabelle
  imports Main
begin

section \<open>JavaScript values, property descriptors and objects\<close>

text \<open>
  The values the modelled functions inspect. An object (or function) is the list of its
  own data properties in insertion order; object identity is not modelled.
\<close>

datatype jsval =
    VUndefined
  | VNull
  | VBool bool
  | VNum int
  | VStr string
  | VObj "(string \<times> jsval) list"

datatype error = TypeError

text \<open>ToBoolean.\<close>

fun truthy :: "jsval \<Rightarrow> bool" where
  "truthy VUndefined = False"
| "truthy VNull = False"
| "truthy (VBool b) = b"
| "truthy (VNum n) = (n \<noteq> 0)"
| "truthy (VStr s) = (s \<noteq> [])"
| "truthy (VObj ps) = True"

text \<open>
  The member access \<open>v.k\<close>: a TypeError on \<open>undefined\<close> and \<open>null\<close>, the stored value
  on an object, \<open>undefined\<close> where the key is missing and on a primitive.
\<close>

fun member :: "jsval \<Rightarrow> string \<Rightarrow> error + jsval" where
  "member VUndefined k = Inl TypeError"
| "member VNull k = Inl TypeError"
| "member (VObj ps) k = Inr (case map_of ps k of None \<Rightarrow> VUndefined | Some v \<Rightarrow> v)"
| "member (VBool b) k = Inr VUndefined"
| "member (VNum n) k = Inr VUndefined"
| "member (VStr s) k = Inr VUndefined"

text \<open>
  A property descriptor, complete (every attribute present). A data slot holds the value
  and the writable flag; an accessor slot holds the identity of its get/set pair and the
  value the getter yields on this object.
\<close>

datatype slot = Data jsval bool | Accessor nat jsval

record descriptor =
  d_slot :: slot
  d_enumerable :: bool
  d_configurable :: bool

fun slot_value :: "slot \<Rightarrow> jsval" where
  "slot_value (Data v w) = v"
| "slot_value (Accessor g v) = v"

text \<open>
  An object: its own property table, the property tables of its prototype chain (nearest
  prototype first) and its extensible flag.
\<close>

record js_object =
  own :: "string \<rightharpoonup> descriptor"
  protos :: "(string \<rightharpoonup> descriptor) list"
  extensible :: bool

text \<open>
  A statement sequence on a mutable object either completes or throws; in both cases the
  object is left in the state reached so far.
\<close>

datatype 'a completion = Normal 'a | Throw error 'a

fun andthen :: "'a completion \<Rightarrow> ('a \<Rightarrow> 'a completion) \<Rightarrow> 'a completion" where
  "andthen (Normal s) f = f s"
| "andthen (Throw err s) f = Throw err s"

fun state_of :: "'a completion \<Rightarrow> 'a" where
  "state_of (Normal s) = s"
| "state_of (Throw err s) = s"

fun chain_lookup :: "(string \<rightharpoonup> descriptor) list \<Rightarrow> string \<Rightarrow> descriptor option" where
  "chain_lookup [] p = None"
| "chain_lookup (t # ts) p = (case t p of Some d \<Rightarrow> Some d | None \<Rightarrow> chain_lookup ts p)"

definition js_lookup :: "js_object \<Rightarrow> string \<Rightarrow> descriptor option" where
  "js_lookup e p = chain_lookup (own e # protos e) p"

text \<open>\<open>p in e\<close>: own or inherited.\<close>

definition js_in :: "js_object \<Rightarrow> string \<Rightarrow> bool" where
  "js_in e p = (case js_lookup e p of None \<Rightarrow> False | Some d \<Rightarrow> True)"

text \<open>\<open>e[p]\<close>: the value of the nearest property of that name, \<open>undefined\<close> if none.\<close>

definition js_get :: "js_object \<Rightarrow> string \<Rightarrow> jsval" where
  "js_get e p = (case js_lookup e p of None \<Rightarrow> VUndefined | Some d \<Rightarrow> slot_value (d_slot d))"

text \<open>\<open>Object.getOwnPropertyDescriptor(e, p)\<close>: own properties only; None is \<open>undefined\<close>.\<close>

definition getOwnPropertyDescriptor :: "js_object \<Rightarrow> string \<Rightarrow> descriptor option" where
  "getOwnPropertyDescriptor e p = own e p"

text \<open>
  \<open>delete e[p]\<close> in strict code: nothing to do when \<open>p\<close> is not an own property, a
  TypeError when the own property is not configurable.
\<close>

definition delete_property :: "js_object \<Rightarrow> string \<Rightarrow> js_object completion" where
  "delete_property e p =
     (case own e p of
        None \<Rightarrow> Normal e
      | Some d \<Rightarrow>
          if d_configurable d then Normal (e\<lparr>own := (own e)(p := None)\<rparr>)
          else Throw TypeError e)"

text \<open>
  What a non-configurable property still admits as its new descriptor
  (ValidateAndApplyPropertyDescriptor, for complete descriptors).
\<close>

fun slot_admissible :: "slot \<Rightarrow> slot \<Rightarrow> bool" where
  "slot_admissible (Data v w) (Data v' w') = (if w then True else (\<not> w' \<and> v' = v))"
| "slot_admissible (Accessor g v) (Accessor g' v') = (g' = g)"
| "slot_admissible (Data v w) (Accessor g' v') = False"
| "slot_admissible (Accessor g v) (Data v' w') = False"

definition admissible :: "descriptor \<Rightarrow> descriptor \<Rightarrow> bool" where
  "admissible cur d =
     (\<not> d_configurable d \<and> d_enumerable d = d_enumerable cur \<and>
      slot_admissible (d_slot cur) (d_slot d))"

text \<open>
  \<open>Object.defineProperty(e, p, d)\<close>. The descriptor argument may be \<open>undefined\<close> (None),
  which is a TypeError; a new key needs an extensible object; an existing key is
  redefined when it is configurable or the change is admissible.
\<close>

definition defineProperty :: "js_object \<Rightarrow> string \<Rightarrow> descriptor option \<Rightarrow> js_object completion" where
  "defineProperty e p dopt =
     (case dopt of
        None \<Rightarrow> Throw TypeError e
      | Some d \<Rightarrow>
          (case own e p of
             None \<Rightarrow>
               if extensible e then Normal (e\<lparr>own := (own e)(p \<mapsto> d)\<rparr>)
               else Throw TypeError e
           | Some cur \<Rightarrow>
               if d_configurable cur then Normal (e\<lparr>own := (own e)(p \<mapsto> d)\<rparr>)
               else if admissible cur d then Normal (e\<lparr>own := (own e)(p \<mapsto> d)\<rparr>)
               else Throw TypeError e))"

section \<open>The property installer (tools/property_installer)\<close>

text \<open>
  The guard \<open>property in element && ! element[property].hyperform\<close>: whether the existing
  property is backed up. Reading \<open>.hyperform\<close> off \<open>undefined\<close> or \<open>null\<close> throws.
\<close>

definition needs_backup :: "string \<Rightarrow> js_object \<Rightarrow> error + bool" where
  "needs_backup p e =
     (if js_in e p then
        (case member (js_get e p) ''hyperform'' of
           Inl err \<Rightarrow> Inl err
         | Inr m \<Rightarrow> Inr (\<not> truthy m))
      else Inr False)"

definition original_key :: "string \<Rightarrow> string" where
  "original_key p = ''_original_'' @ p"

text \<open>
  \<open>installer(property, descriptor)(element)\<close>: the backup under
  \<open>'_original_' + property\<close> when the guard holds, then \<open>delete\<close>, then
  \<open>Object.defineProperty\<close> with the supplied descriptor.
\<close>

definition installer :: "string \<Rightarrow> descriptor \<Rightarrow> js_object \<Rightarrow> js_object completion" where
  "installer p d e =
     (case needs_backup p e of
        Inl err \<Rightarrow> Throw err e
      | Inr b \<Rightarrow>
          andthen
            (if b then defineProperty e (original_key p) (getOwnPropertyDescriptor e p)
             else Normal e)
            (\<lambda>e1. andthen (delete_property e1 p) (\<lambda>e2. defineProperty e2 p (Some d))))"

text \<open>Whether a value carries the truthy \<open>hyperform\<close> marker flag.\<close>

definition marked :: "jsval \<Rightarrow> bool" where
  "marked v = (case member v ''hyperform'' of Inl err \<Rightarrow> False | Inr m \<Rightarrow> truthy m)"

text \<open>\<open>delete e[p]\<close> will not throw: \<open>p\<close> is not an own property, or a configurable one.\<close>

definition removable :: "js_object \<Rightarrow> string \<Rightarrow> bool" where
  "removable e p = (case own e p of None \<Rightarrow> True | Some cur \<Rightarrow> d_configurable cur)"

text \<open>Whether a run completed or threw.\<close>

fun completes :: "'a completion \<Rightarrow> bool" where
  "completes (Normal s) = True"
| "completes (Throw err s) = False"

text \<open>A run of one type seen as a run of another: the state is mapped, a throw stays.\<close>

fun lift :: "'a completion \<Rightarrow> ('a \<Rightarrow> 'b) \<Rightarrow> 'b completion" where
  "lift (Normal s) f = Normal (f s)"
| "lift (Throw err s) f = Throw err (f s)"

section \<open>The property uninstaller and Wrapper.install / Wrapper.uninstall (components/wrapper)\<close>

text \<open>
  Modelled from the spec: the per-property uninstaller (tools/property_uninstaller, imported
  by the wrapper as \<open>uninstall\<close>) is not among the sources. The spec says that the original
  descriptor is preserved under a renamed key so that it can be restored on uninstall, and
  that uninstall reverses the installation per property, per element: the override is
  deleted and, if a descriptor is kept under \<open>'_original_' + property\<close>, it is defined
  again under the property's name.
\<close>

definition uninstall :: "js_object \<Rightarrow> string \<Rightarrow> js_object completion" where
  "uninstall e p =
     andthen (delete_property e p)
       (\<lambda>e1. case getOwnPropertyDescriptor e1 (original_key p) of
                None \<Rightarrow> Normal e1
              | Some d \<Rightarrow> defineProperty e1 p (Some d))"

text \<open>Statements run one after the other on the same element; a throw ends the run.\<close>

fun run_all :: "('a \<Rightarrow> 'a completion) list \<Rightarrow> 'a \<Rightarrow> 'a completion" where
  "run_all [] e = Normal e"
| "run_all (f # fs) e = andthen (f e) (run_all fs)"

text \<open>
  The loop \<open>for (let i = 0; i < els_length; i++)\<close> over distinct elements: a throw at one
  element leaves the later ones untouched.
\<close>

fun for_each :: "('a \<Rightarrow> 'a completion) \<Rightarrow> 'a list \<Rightarrow> 'a list completion" where
  "for_each f [] = Normal []"
| "for_each f (e # es) =
     (case f e of
        Throw err e' \<Rightarrow> Throw err (e' # es)
      | Normal e' \<Rightarrow>
          (case for_each f es of
             Throw err es' \<Rightarrow> Throw err (e' # es')
           | Normal es' \<Rightarrow> Normal (e' # es')))"

text \<open>
  The argument of \<open>install\<close> and \<open>uninstall\<close>: one HTMLElement, which the method wraps
  in an array, or an array-like of elements.
\<close>

datatype elements = Single js_object | Several "js_object list"

fun as_array :: "elements \<Rightarrow> js_object list" where
  "as_array (Single e) = [e]"
| "as_array (Several es) = es"

text \<open>
  Modelled from the spec: the \<open>install\<close> function of each polyfill module
  (polyfills/checkValidity and the others) is not among the sources. By the spec it is the
  property installer applied to the property's name and the polyfill's descriptor; the
  descriptors are the parameter \<open>pf\<close>. \<open>install_properties\<close> (polyfills/properties) is
  not among the sources either and is the parameter \<open>ip\<close>.
\<close>

definition install_element ::
  "(string \<Rightarrow> descriptor) \<Rightarrow> (js_object \<Rightarrow> js_object completion) \<Rightarrow> js_object \<Rightarrow> js_object completion" where
  "install_element pf ip =
     run_all
       [installer ''checkValidity'' (pf ''checkValidity''),
        installer ''reportValidity'' (pf ''reportValidity''),
        installer ''setCustomValidity'' (pf ''setCustomValidity''),
        installer ''stepDown'' (pf ''stepDown''),
        installer ''stepUp'' (pf ''stepUp''),
        installer ''validationMessage'' (pf ''validationMessage''),
        installer ''validity'' (pf ''validity''),
        installer ''valueAsDate'' (pf ''valueAsDate''),
        installer ''valueAsNumber'' (pf ''valueAsNumber''),
        installer ''willValidate'' (pf ''willValidate''),
        ip]"

definition Wrapper_install ::
  "(string \<Rightarrow> descriptor) \<Rightarrow> (js_object \<Rightarrow> js_object completion) \<Rightarrow> elements \<Rightarrow> js_object list completion" where
  "Wrapper_install pf ip els = for_each (install_element pf ip) (as_array els)"

text \<open>
  The body of the loop of \<open>Wrapper.uninstall\<close>: the ten calls of the uninstaller. The
  source ends with the comment \<open>TODO uninstall our versions of property getters\<close>.
\<close>

definition uninstall_element :: "js_object \<Rightarrow> js_object completion" where
  "uninstall_element =
     run_all
       [\<lambda>e. uninstall e ''checkValidity'',
        \<lambda>e. uninstall e ''reportValidity'',
        \<lambda>e. uninstall e ''setCustomValidity'',
        \<lambda>e. uninstall e ''stepDown'',
        \<lambda>e. uninstall e ''stepUp'',
        \<lambda>e. uninstall e ''validationMessage'',
        \<lambda>e. uninstall e ''validity'',
        \<lambda>e. uninstall e ''valueAsDate'',
        \<lambda>e. uninstall e ''valueAsNumber'',
        \<lambda>e. uninstall e ''willValidate'']"

definition Wrapper_uninstall :: "elements \<Rightarrow> js_object list completion" where
  "Wrapper_uninstall els = for_each uninstall_element (as_array els)"

text \<open>Descriptors and elements used to evaluate the model.\<close>

definition native_method :: descriptor where
  "native_method = \<lparr>d_slot = Data (VObj []) True, d_enumerable = True, d_configurable = True\<rparr>"

definition polyfill_method :: descriptor where
  "polyfill_method =
     \<lparr>d_slot = Data (VObj [(''hyperform'', VBool True)]) True,
      d_enumerable = True, d_configurable = True\<rparr>"

definition property_getter :: descriptor where
  "property_getter =
     \<lparr>d_slot = Accessor 1 (VBool False), d_enumerable = True, d_configurable = True\<rparr>"

text \<open>An element of a browser without the validation API: no property of its own or inherited.\<close>

definition bare_element :: js_object where
  "bare_element = \<lparr>own = Map.empty, protos = [], extensible = True\<rparr>"

text \<open>An element whose \<open>checkValidity\<close> is the native method of its prototype.\<close>

definition inheriting_element :: js_object where
  "inheriting_element =
     \<lparr>own = Map.empty, protos = [Map.empty(''checkValidity'' \<mapsto> native_method)],
      extensible = True\<rparr>"

text \<open>An element that already carries the polyfill, with the native method kept as backup.\<close>

definition polyfilled_element :: js_object where
  "polyfilled_element =
     \<lparr>own = Map.empty(''_original_checkValidity'' \<mapsto> native_method,
                        ''checkValidity'' \<mapsto> polyfill_method),
      protos = [], extensible = True\<rparr>"

text \<open>
  An element whose polyfill was defined without \<open>configurable\<close>, as the descriptor
  \<open>{ value: ... }\<close> of the installer's docstring is.
\<close>

definition fixed_polyfill_method :: descriptor where
  "fixed_polyfill_method =
     \<lparr>d_slot = Data (VObj [(''hyperform'', VBool True)]) False,
      d_enumerable = False, d_configurable = False\<rparr>"

definition fixed_polyfilled_element :: js_object where
  "fixed_polyfilled_element =
     \<lparr>own = Map.empty(''_original_checkValidity'' \<mapsto> native_method,
                        ''checkValidity'' \<mapsto> fixed_polyfill_method),
      protos = [], extensible = True\<rparr>"

text \<open>
  An element with a native getter \<open>required\<close> of its own, and the same element after the
  polyfill getter has been installed on it once and twice. The value a getter yields has
  no marker.
\<close>

definition native_getter :: descriptor where
  "native_getter =
     \<lparr>d_slot = Accessor 0 (VBool False), d_enumerable = True, d_configurable = True\<rparr>"

definition getter_element :: js_object where
  "getter_element =
     \<lparr>own = Map.empty(''required'' \<mapsto> native_getter), protos = [], extensible = True\<rparr>"

definition getter_element_once :: js_object where
  "getter_element_once =
     \<lparr>own = Map.empty(''_original_required'' \<mapsto> native_getter,
                        ''required'' \<mapsto> property_getter),
      protos = [], extensible = True\<rparr>"

definition getter_element_twice :: js_object where
  "getter_element_twice =
     \<lparr>own = Map.empty(''_original_required'' \<mapsto> property_getter,
                        ''required'' \<mapsto> property_getter),
      protos = [], extensible = True\<rparr>"

text \<open>
  The bare element after \<open>Wrapper.install\<close>, with every polyfill the same marked method
  and with \<open>install_properties\<close> defining one getter, \<open>required\<close>.
\<close>

definition installed_element :: js_object where
  "installed_element =
     \<lparr>own = Map.empty(''checkValidity'' \<mapsto> polyfill_method,
                        ''reportValidity'' \<mapsto> polyfill_method,
                        ''setCustomValidity'' \<mapsto> polyfill_method,
                        ''stepDown'' \<mapsto> polyfill_method,
                        ''stepUp'' \<mapsto> polyfill_method,
                        ''validationMessage'' \<mapsto> polyfill_method,
                        ''validity'' \<mapsto> polyfill_method,
                        ''valueAsDate'' \<mapsto> polyfill_method,
                        ''valueAsNumber'' \<mapsto> polyfill_method,
                        ''willValidate'' \<mapsto> polyfill_method,
                        ''required'' \<mapsto> property_getter),
      protos = [], extensible = True\<rparr>"

section \<open>The hook registry (components/hooks)\<close>

text \<open>
  components/hooks is not among the sources; its test is. The definitions of this section
  follow the spec: the registry maps a hook name to the ordered list of its callbacks, and
  a callback is called with \<open>this\<close> bound to a context object \<open>{state, hook}\<close>. A
  function is identified by \<open>cb_id\<close>; what a call of it returns, given \<open>this\<close> and the
  argument, is \<open>cb_run\<close>. The calls are recorded, since the callbacks of the tests act by
  side effect.
\<close>

record hook_context =
  state :: jsval
  hook :: string

record callback =
  cb_id :: nat
  cb_run :: "hook_context \<Rightarrow> jsval \<Rightarrow> jsval"

record invocation =
  called :: nat
  bound_this :: hook_context
  arg :: jsval

type_synonym registry = "string \<rightharpoonup> callback list"

text \<open>The callbacks of a name, none if the name is unknown.\<close>

definition registered :: "registry \<Rightarrow> string \<Rightarrow> callback list" where
  "registered reg name = (case reg name of None \<Rightarrow> [] | Some cs \<Rightarrow> cs)"

text \<open>
  Modelled from the spec: \<open>add_hook(name, fn)\<close>, missing from the sources, puts the
  callback at the end of the name's list (the order of a list is the order of insertion).
\<close>

definition add_hook :: "registry \<Rightarrow> string \<Rightarrow> callback \<Rightarrow> registry" where
  "add_hook reg name fn = reg(name \<mapsto> registered reg name @ [fn])"

text \<open>
  Modelled from the spec: \<open>remove_hook(name, fn)\<close>, missing from the sources, takes the
  function out of the name's list; the others keep their order.
\<close>

definition remove_hook :: "registry \<Rightarrow> string \<Rightarrow> callback \<Rightarrow> registry" where
  "remove_hook reg name fn =
     (case reg name of
        None \<Rightarrow> reg
      | Some cs \<Rightarrow> reg(name \<mapsto> filter (\<lambda>c. cb_id c \<noteq> cb_id fn) cs))"

text \<open>
  Modelled from the spec: the fan-out of \<open>call_hook\<close>, missing from the sources. The
  callbacks are called in turn with \<open>this\<close> bound to the context they share; the value
  passed on is the input unless a callback overrides it, which it does by returning
  something other than \<open>undefined\<close>.
\<close>

fun dispatch :: "hook_context \<Rightarrow> callback list \<Rightarrow> jsval \<Rightarrow> jsval \<times> invocation list" where
  "dispatch ctx [] v = (v, [])"
| "dispatch ctx (c # cs) v =
     (let r = cb_run c ctx v;
          rest = dispatch ctx cs (if r = VUndefined then v else r)
      in (fst rest, \<lparr>called = cb_id c, bound_this = ctx, arg = v\<rparr> # snd rest))"

text \<open>
  Modelled from the spec: \<open>call_hook(name, value)\<close>, missing from the sources, binds
  \<open>this\<close> to one context object \<open>{state, hook}\<close> for all callbacks of the call, the
  state being the value it was given and the hook the name, and returns the value after
  the fan-out; the second component is the record of the calls made.
\<close>

definition call_hook :: "registry \<Rightarrow> string \<Rightarrow> jsval \<Rightarrow> jsval \<times> invocation list" where
  "call_hook reg name v = dispatch \<lparr>state = v, hook = name\<rparr> (registered reg name) v"

text \<open>The callbacks of the tests: \<open>arg => called = arg\<close> and \<open>arg => arg\<close> return
  their argument; \<open>function() { if (this.state === 2 ...) ... }\<close> returns \<open>undefined\<close>.
  A callback that overrides returns a value of its own.\<close>

definition returns_arg :: "nat \<Rightarrow> callback" where
  "returns_arg i = \<lparr>cb_id = i, cb_run = (\<lambda>ctx v. v)\<rparr>"



text \<open>The registry of the first test: one callback under \<open>hooks1\<close>.\<close>

definition hooks1 :: registry where
  "hooks1 = add_hook Map.empty ''hooks1'' (returns_arg 0)"


definition hooks3 :: registry where
  "hooks3 = remove_hook (add_hook Map.empty ''hooks3'' (returns_arg 0)) ''hooks3'' (returns_arg 0)"


section \<open>The Wrapper constructor (components/wrapper)\<close>

text \<open>
  A registered listener: event type, callback, \<open>useCapture\<close>. \<open>Revalidator\<close> is
  \<open>this.revalidator\<close>, the bound function the constructor creates; any other callback is
  \<open>Other\<close>.
\<close>

datatype handler = Revalidator | Other nat

type_synonym listener = "string \<times> handler \<times> bool"

text \<open>\<open>addEventListener\<close> discards a listener that is already registered with the same
  type, callback and capture flag.\<close>

definition addEventListener :: "listener list \<Rightarrow> listener \<Rightarrow> listener list" where
  "addEventListener ls l = (if l \<in> set ls then ls else ls @ [l])"

text \<open>Reading a field of an object literal such as the settings.\<close>

definition field :: "(string \<times> jsval) list \<Rightarrow> string \<Rightarrow> jsval" where
  "field ps k = (case map_of ps k of None \<Rightarrow> VUndefined | Some v \<Rightarrow> v)"

text \<open>
  The last two statements of the constructor, on the listeners of \<open>form\<close>: what
  \<open>settings.revalidate\<close> adds.
\<close>

definition add_revalidation_listeners :: "(string \<times> jsval) list \<Rightarrow> listener list \<Rightarrow> listener list" where
  "add_revalidation_listeners settings ls =
     (let ls1 =
            (if field settings ''revalidate'' = VStr ''oninput'' \<or>
                field settings ''revalidate'' = VStr ''hybrid''
             then addEventListener
                    (addEventListener ls (''keyup'', Revalidator, False))
                    (''change'', Revalidator, False)
             else ls)
      in if field settings ''revalidate'' = VStr ''onblur'' \<or>
            field settings ''revalidate'' = VStr ''hybrid''
         then addEventListener ls1 (''blur'', Revalidator, True)
         else ls1)"

definition revalidation_listeners :: "listener list \<Rightarrow> listener list" where
  "revalidation_listeners ls = filter (\<lambda>l. fst (snd l) = Revalidator) ls"

definition foreign_listeners :: "listener list \<Rightarrow> listener list" where
  "foreign_listeners ls = filter (\<lambda>l. fst (snd l) \<noteq> Revalidator) ls"

text \<open>
  What the constructor is given as \<open>form\<close>, by the tests it makes: the window or a
  document, a form, a fieldset, or anything else.
\<close>

datatype form_kind = Window | Document | Form | FieldSet | Anything

text \<open>
  The target and the objects the constructor reaches through it: \<open>self\<close> is the object
  the polyfills of a form go on (the form, or \<open>window.HTMLFormElement\<close> for the window and
  a document), \<open>controls\<close> the objects the polyfills of an element go on
  (\<open>form.elements\<close>, or the five prototypes for the window and a document),
  \<open>listeners\<close> the listeners registered on the target. The objects of different targets
  are taken to be different objects.
\<close>

record dom_target =
  kind :: form_kind
  self :: js_object
  controls :: "js_object list"
  listeners :: "listener list"

text \<open>
  \<open>catch_submit\<close> as the sources have it (tools/catch_submit): a click and a keypress
  listener, each a new function, are added to the node. The version the wrapper imports
  takes a second argument; the one among the sources reads none.
\<close>

definition catch_submit :: "dom_target \<Rightarrow> dom_target" where
  "catch_submit listening_node =
     listening_node
       \<lparr>listeners := listeners listening_node @
          [(''click'', Other 0, False), (''keypress'', Other 1, False)]\<rparr>"

text \<open>
  \<open>install_form\<close>: \<open>checkValidity.install(form)\<close> and \<open>reportValidity.install(form)\<close>,
  the install functions as in \<open>install_element\<close>.
\<close>

definition install_form :: "(string \<Rightarrow> descriptor) \<Rightarrow> js_object \<Rightarrow> js_object completion" where
  "install_form pf =
     run_all
       [installer ''checkValidity'' (pf ''checkValidity''),
        installer ''reportValidity'' (pf ''reportValidity'')]"

text \<open>\<open>this.install(...)\<close> and \<open>this.install_form(...)\<close> of the constructor, on the target.\<close>

definition install_controls ::
  "(string \<Rightarrow> descriptor) \<Rightarrow> (js_object \<Rightarrow> js_object completion) \<Rightarrow> dom_target \<Rightarrow> dom_target completion" where
  "install_controls pf ip t =
     lift (Wrapper_install pf ip (Several (controls t))) (\<lambda>els. t\<lparr>controls := els\<rparr>)"

definition install_self :: "(string \<Rightarrow> descriptor) \<Rightarrow> dom_target \<Rightarrow> dom_target completion" where
  "install_self pf t = lift (install_form pf (self t)) (\<lambda>e. t\<lparr>self := e\<rparr>)"

text \<open>
  The object under construction: \<open>this.form\<close> and \<open>this.settings\<close>. It is stored in
  \<open>instances\<close> before anything that can throw, so it outlives a throw of the constructor.
\<close>

record Wrapper =
  this_form :: dom_target
  this_settings :: "(string \<times> jsval) list"

text \<open>
  The statements of the constructor on the target, after \<open>this.form\<close>,
  \<open>this.settings\<close>, \<open>this.revalidator\<close> and \<open>instances.set\<close>: \<open>catch_submit\<close>, the
  installation by the kind of the target, the revalidation listeners.
\<close>

definition construct ::
  "(string \<Rightarrow> descriptor) \<Rightarrow> (js_object \<Rightarrow> js_object completion) \<Rightarrow> (string \<times> jsval) list \<Rightarrow>
   dom_target \<Rightarrow> dom_target completion" where
  "construct pf ip settings t =
     andthen (Normal (catch_submit t))
       (\<lambda>t1. andthen
          (if kind t1 = Window \<or> kind t1 = Document
           then andthen (install_controls pf ip t1) (install_self pf)
           else if kind t1 = Form \<or> kind t1 = FieldSet
           then andthen (install_controls pf ip t1)
                  (\<lambda>t2. if kind t2 = Form then install_self pf t2 else Normal t2)
           else Normal t1)
          (\<lambda>t3. Normal
             (t3\<lparr>listeners := add_revalidation_listeners settings (listeners t3)\<rparr>)))"

definition Wrapper_constructor ::
  "(string \<Rightarrow> descriptor) \<Rightarrow> (js_object \<Rightarrow> js_object completion) \<Rightarrow> dom_target \<Rightarrow>
   (string \<times> jsval) list \<Rightarrow> Wrapper completion" where
  "Wrapper_constructor pf ip t settings =
     lift (construct pf ip settings t) (\<lambda>t'. \<lparr>this_form = t', this_settings = settings\<rparr>)"

text \<open>
  Targets to evaluate the constructor on: a form with one control, form and control with
  the native validation API on their prototypes; a node that is neither window, document,
  form nor fieldset.
\<close>

definition native_form :: dom_target where
  "native_form =
     \<lparr>kind = Form, self = inheriting_element, controls = [inheriting_element],
      listeners = []\<rparr>"

definition plain_node :: dom_target where
  "plain_node = \<lparr>kind = Anything, self = bare_element, controls = [], listeners = []\<rparr>"

section \<open>The public entry point hyperform (src/hyperform.js)\<close>

text \<open>
  The first argument: a NodeList, HTMLCollection or Array of further arguments, or
  anything else (a form, the document, the window).
\<close>

datatype target = Node dom_target | Collection "target list"

text \<open>The local variables after the destructuring and the five defaulting statements.\<close>

record hyperform_locals =
  strict :: jsval
  revalidate :: jsval
  valid_event :: jsval
  extend_fieldset :: jsval
  novalidate_on_elements :: jsval
  classes :: jsval

definition resolve :: "(string \<times> jsval) list \<Rightarrow> hyperform_locals" where
  "resolve options =
     (let strict0 = (if field options ''strict'' = VUndefined then VBool False
                     else field options ''strict'')
      in \<lparr>strict = strict0,
          revalidate =
            (if field options ''revalidate'' = VUndefined
             then (if truthy strict0 then VStr ''onsubmit'' else VStr ''hybrid'')
             else field options ''revalidate''),
          valid_event =
            (if field options ''valid_event'' = VUndefined then VBool (\<not> truthy strict0)
             else field options ''valid_event''),
          extend_fieldset =
            (if field options ''extend_fieldset'' = VUndefined then VBool (\<not> truthy strict0)
             else field options ''extend_fieldset''),
          novalidate_on_elements =
            (if field options ''novalidate_on_elements'' = VUndefined
             then VBool (\<not> truthy strict0)
             else field options ''novalidate_on_elements''),
          classes =
            (if \<not> truthy (field options ''classes'') then VObj []
             else field options ''classes'')\<rparr>)"

text \<open>The object literal \<open>{ strict, revalidate, valid_event, extend_fieldset, classes, }\<close>.\<close>

definition settings_literal :: "hyperform_locals \<Rightarrow> (string \<times> jsval) list" where
  "settings_literal l =
     [(''strict'', strict l),
      (''revalidate'', revalidate l),
      (''valid_event'', valid_event l),
      (''extend_fieldset'', extend_fieldset l),
      (''classes'', classes l)]"

text \<open>
  What \<open>hyperform\<close> returns: the Wrapper that \<open>new Wrapper(form, settings)\<close> constructs,
  or the array that \<open>Array.prototype.map\<close> builds from the results of the members. When
  a constructor throws, \<open>hyperform\<close> throws; the state then is the Wrappers made so far,
  the last of them the one whose construction threw, and the members after it have not
  been visited. The options are an object; an omitted second argument is the empty object.
\<close>

datatype result = NewWrapper Wrapper | Array "result list"

fun hyperform ::
  "(string \<Rightarrow> descriptor) \<Rightarrow> (js_object \<Rightarrow> js_object completion) \<Rightarrow> target \<Rightarrow>
   (string \<times> jsval) list \<Rightarrow> result completion"
and hyperform_members ::
  "(string \<Rightarrow> descriptor) \<Rightarrow> (js_object \<Rightarrow> js_object completion) \<Rightarrow> target list \<Rightarrow>
   (string \<times> jsval) list \<Rightarrow> result list completion" where
  "hyperform pf ip (Collection members) options =
     lift (hyperform_members pf ip members (settings_literal (resolve options))) Array"
| "hyperform pf ip (Node t) options =
     lift (Wrapper_constructor pf ip t (settings_literal (resolve options))) NewWrapper"
| "hyperform_members pf ip [] settings = Normal []"
| "hyperform_members pf ip (element # rest) settings =
     (case hyperform pf ip element settings of
        Throw err r \<Rightarrow> Throw err [r]
      | Normal r \<Rightarrow>
          (case hyperform_members pf ip rest settings of
             Throw err rs \<Rightarrow> Throw err (r # rs)
           | Normal rs \<Rightarrow> Normal (r # rs)))"

text \<open>The targets of an argument and the Wrappers of a result, left to right.\<close>

fun nodes :: "target \<Rightarrow> dom_target list" where
  "nodes (Node t) = [t]"
| "nodes (Collection ts) = concat (map nodes ts)"

fun wrappers :: "result \<Rightarrow> Wrapper list" where
  "wrappers (NewWrapper w) = [w]"
| "wrappers (Array rs) = concat (map wrappers rs)"

section \<open>Catching implicit submission (tools/catch_submit)\<close>

record form_node =
  novalidate :: bool
  elements :: "string list"

record target_node =
  nodeName :: string
  type_attr :: string
  form :: "form_node option"

record event =
  defaultPrevented :: bool
  keyCode :: int
  target :: target_node

text \<open>
  What a listener does, in order: \<open>event.preventDefault()\<close>, \<open>click()\<close> on the element
  at an index of \<open>form.elements\<close>, the call of \<open>reportValidity(form)\<close>,
  \<open>form.submit()\<close>.
\<close>

datatype action = PreventDefault | Click nat | ReportValidity | Submit

text \<open>\<open>check(event)\<close>; \<open>reportValidity\<close> (polyfills/reportValidity) is a parameter.\<close>

definition check :: "(form_node \<Rightarrow> bool) \<Rightarrow> form_node \<Rightarrow> action list" where
  "check reportValidity f =
     [PreventDefault, ReportValidity] @ (if reportValidity f then [Submit] else [])"

text \<open>The loop over \<open>form.elements\<close> from index \<open>i\<close>, with its \<open>break\<close>.\<close>

fun find_submit :: "string list \<Rightarrow> nat \<Rightarrow> nat option" where
  "find_submit [] i = None"
| "find_submit (t # ts) i =
     (if t \<in> set [''image'', ''submit''] then Some i else find_submit ts (Suc i))"

text \<open>The keypress listener; \<open>text_types\<close> (components/types) is a parameter.\<close>

definition keypress_listener :: "string list \<Rightarrow> (form_node \<Rightarrow> bool) \<Rightarrow> event \<Rightarrow> action list" where
  "keypress_listener text_types reportValidity ev =
     (case form (target ev) of
        None \<Rightarrow> []
      | Some f \<Rightarrow>
          if \<not> defaultPrevented ev \<and> keyCode ev = 13 \<and> nodeName (target ev) = ''INPUT'' \<and>
             type_attr (target ev) \<in> set text_types \<and> \<not> novalidate f
          then (case find_submit (elements f) 0 of
                  Some i \<Rightarrow> [PreventDefault, Click i]
                | None \<Rightarrow> check reportValidity f)
          else [])"

text \<open>Enter in a text input of a form, with a submit button and without one.\<close>

definition form_with_button :: form_node where
  "form_with_button = \<lparr>novalidate = False, elements = [''text'', ''submit'', ''image'']\<rparr>"

definition form_without_button :: form_node where
  "form_without_button = \<lparr>novalidate = False, elements = [''text'', ''checkbox'']\<rparr>"

definition enter_key :: "bool \<Rightarrow> form_node \<Rightarrow> event" where
  "enter_key prevented f =
     \<lparr>defaultPrevented = prevented, keyCode = 13,
      target = \<lparr>nodeName = ''INPUT'', type_attr = ''text'', form = Some f\<rparr>\<rparr>"

section \<open>The property installer: lemmas\<close>

lemma original_key_neq: "original_key p \<noteq> p"
  by (simp add: original_key_def)

lemma needs_backup_marked:
  "js_in e p \<Longrightarrow> marked (js_get e p) \<Longrightarrow> needs_backup p e = Inr False"
  by (auto simp: needs_backup_def marked_def split: sum.splits)

lemma own_delete_other: "k \<noteq> p \<Longrightarrow> own (state_of (delete_property e p)) k = own e k"
  by (simp add: delete_property_def split: option.splits)

lemma own_define_other: "k \<noteq> p \<Longrightarrow> own (state_of (defineProperty e p dopt)) k = own e k"
  by (simp add: defineProperty_def split: option.splits)

lemma own_delete_define_other:
  "k \<noteq> p \<Longrightarrow>
   own (state_of (andthen (delete_property e p) (\<lambda>e'. defineProperty e' p dopt))) k = own e k"
  by (cases "delete_property e p")
     (use own_delete_other [of k p e] in \<open>simp_all add: own_define_other\<close>)

lemma defineProperty_Normal_own:
  "defineProperty e p (Some d) = Normal e' \<Longrightarrow> own e' p = Some d"
  by (auto simp: defineProperty_def split: option.splits if_splits)

lemma andthen_Normal:
  "andthen c f = Normal r \<Longrightarrow> \<exists>s. c = Normal s \<and> f s = Normal r"
  by (cases c) simp_all

lemma installer_Normal_own:
  assumes "installer p d e = Normal e1"
  shows "own e1 p = Some d"
proof -
  from assms obtain b where
    run: "andthen
            (if b then defineProperty e (original_key p) (getOwnPropertyDescriptor e p)
             else Normal e)
            (\<lambda>e1. andthen (delete_property e1 p) (\<lambda>e2. defineProperty e2 p (Some d)))
          = Normal e1"
    unfolding installer_def by (auto split: sum.splits)
  from andthen_Normal [OF run] obtain s where
    "andthen (delete_property s p) (\<lambda>e2. defineProperty e2 p (Some d)) = Normal e1"
    by blast
  from andthen_Normal [OF this] obtain e2 where "defineProperty e2 p (Some d) = Normal e1"
    by blast
  then show ?thesis by (rule defineProperty_Normal_own)
qed

lemma own_js_in: "own e p = Some d \<Longrightarrow> js_in e p \<and> js_get e p = slot_value (d_slot d)"
  by (simp add: js_in_def js_get_def js_lookup_def)

lemma installer_marked:
  assumes "js_in e p" "marked (js_get e p)"
  shows "installer p d e = andthen (delete_property e p) (\<lambda>e'. defineProperty e' p (Some d))"
  using needs_backup_marked [OF assms] by (simp add: installer_def)

lemma delete_define_Normal:
  assumes "removable e p" "extensible e"
  shows "andthen (delete_property e p) (\<lambda>e'. defineProperty e' p (Some d))
         = Normal (e\<lparr>own := (own e)(p \<mapsto> d)\<rparr>)"
  using assms
  by (auto simp: removable_def delete_property_def defineProperty_def split: option.splits)

text \<open>
  Where the installer does as documented: on a property the element does not have, and on
  an own, configurable property without the marker, whose descriptor goes under the renamed
  key.
\<close>

lemma installer_absent_property:
  assumes "\<not> js_in e p" "extensible e"
  shows "installer p d e = Normal (e\<lparr>own := (own e)(p \<mapsto> d)\<rparr>)"
proof -
  from assms(1) have "own e p = None"
    by (auto simp: js_in_def js_lookup_def split: option.splits)
  with assms show ?thesis
    by (simp add: installer_def needs_backup_def delete_property_def defineProperty_def)
qed

lemma installer_own_property:
  assumes "own e p = Some cur" "member (slot_value (d_slot cur)) ''hyperform'' = Inr m"
    "\<not> truthy m" "d_configurable cur" "own e (original_key p) = None" "extensible e"
  shows "installer p d e = Normal (e\<lparr>own := (own e)(original_key p \<mapsto> cur, p \<mapsto> d)\<rparr>)"
  using assms own_js_in [OF assms(1)] original_key_neq [of p]
  by (simp add: installer_def needs_backup_def delete_property_def defineProperty_def
        getOwnPropertyDescriptor_def)

lemma delete_define_completes:
  "completes (andthen (delete_property e p) (\<lambda>e'. defineProperty e' p (Some d)))
   = (removable e p \<and> extensible e)"
  by (auto simp: removable_def delete_property_def defineProperty_def split: option.splits)

text \<open>
  Claim C3, amended. Where the current value of the property carries the truthy
  \<open>hyperform\<close> marker, the installer skips the backup and carries on with \<open>delete\<close>
  and \<open>defineProperty\<close>: the slot \<open>'_original_' + property\<close> is the same afterwards,
  whether the run completes or throws. The run completes, with the property overwritten,
  exactly when the engine permits the deletion and the definition: the property is not an
  own one or is configurable, and the element is extensible; otherwise the run ends in the
  engine's TypeError. A second installation of a descriptor whose value carries the marker
  leaves the slot as the first one left it.
\<close>

theorem installer_marked_skips_backup:
  "(js_in e p \<and> marked (js_get e p) \<longrightarrow>
      installer p d e = andthen (delete_property e p) (\<lambda>e'. defineProperty e' p (Some d)) \<and>
      own (state_of (installer p d e)) (original_key p) = own e (original_key p) \<and>
      (removable e p \<and> extensible e \<longrightarrow>
         installer p d e = Normal (e\<lparr>own := (own e)(p \<mapsto> d)\<rparr>)) \<and>
      completes (installer p d e) = (removable e p \<and> extensible e)) \<and>
   (installer p d e = Normal e1 \<and> marked (slot_value (d_slot d)) \<longrightarrow>
      own (state_of (installer p d e1)) (original_key p) = own e1 (original_key p))"
proof -
  have skip: "own (state_of (installer p d x)) (original_key p) = own x (original_key p)"
    if "js_in x p" "marked (js_get x p)" for x
    using installer_marked [OF that] own_delete_define_other [OF original_key_neq] by simp
  have again: "own (state_of (installer p d e1)) (original_key p) = own e1 (original_key p)"
    if "installer p d e = Normal e1" "marked (slot_value (d_slot d))"
  proof -
    from that(1) have "own e1 p = Some d" by (rule installer_Normal_own)
    then have "js_in e1 p" "js_get e1 p = slot_value (d_slot d)"
      using own_js_in by blast+
    with that(2) show ?thesis using skip by simp
  qed
  show ?thesis
    using installer_marked [of e p d] skip [of e] again delete_define_Normal [of e p d]
      delete_define_completes [of e p d]
    by simp
qed

text \<open>The hypotheses of C3 hold on an element that carries the polyfill and a backup.\<close>

theorem installer_marked_skips_backup_witness:
  "js_in polyfilled_element ''checkValidity'' \<and>
   marked (js_get polyfilled_element ''checkValidity'') \<and>
   removable polyfilled_element ''checkValidity'' \<and> extensible polyfilled_element \<and>
   marked (slot_value (d_slot polyfill_method)) \<and>
   installer ''checkValidity'' polyfill_method polyfilled_element = Normal polyfilled_element \<and>
   own (state_of (installer ''checkValidity'' polyfill_method polyfilled_element))
     ''_original_checkValidity'' = Some native_method"
proof -
  have h1: "js_in polyfilled_element ''checkValidity'' \<and>
            marked (js_get polyfilled_element ''checkValidity'')"
    by (simp add: js_in_def js_get_def js_lookup_def marked_def
                  polyfilled_element_def polyfill_method_def)
  have h2: "removable polyfilled_element ''checkValidity'' \<and> extensible polyfilled_element"
    by (simp add: removable_def polyfilled_element_def polyfill_method_def)
  have h3: "marked (slot_value (d_slot polyfill_method))"
    by (simp add: marked_def polyfill_method_def)
  have same: "polyfilled_element\<lparr>own := (own polyfilled_element)(''checkValidity'' \<mapsto> polyfill_method)\<rparr>
              = polyfilled_element"
    by (simp add: polyfilled_element_def)
  have orig: "own polyfilled_element (original_key ''checkValidity'') = Some native_method"
    by (simp add: polyfilled_element_def original_key_def)
  note inst = installer_marked_skips_backup
        [of polyfilled_element "''checkValidity''" polyfill_method polyfilled_element]
  from inst h1 h2 same
  have run: "installer ''checkValidity'' polyfill_method polyfilled_element
             = Normal polyfilled_element"
    by metis
  from inst h1 orig
  have kept: "own (state_of (installer ''checkValidity'' polyfill_method polyfilled_element))
                (original_key ''checkValidity'') = Some native_method"
    by metis
  from kept have "own (state_of (installer ''checkValidity'' polyfill_method polyfilled_element))
     ''_original_checkValidity'' = Some native_method"
    by (simp add: original_key_def)
  with h1 h2 h3 run show ?thesis by blast
qed

text \<open>
  Claim C3 as stated. With the marker on the current value, the second installation of a
  polyfill that is not configurable ends in a TypeError instead of carrying on. And a
  repeated installation does replace the preserved original where the marker is not found:
  the second installation of a getter, whose value has no marker, puts the polyfill's
  descriptor under \<open>_original_required\<close>, where the native one was kept.
\<close>

theorem installer_reinstall_counterexample:
  "js_in fixed_polyfilled_element ''checkValidity'' \<and>
   marked (js_get fixed_polyfilled_element ''checkValidity'') \<and>
   installer ''checkValidity'' fixed_polyfill_method fixed_polyfilled_element
     = Throw TypeError fixed_polyfilled_element \<and>
   installer ''required'' property_getter getter_element = Normal getter_element_once \<and>
   own getter_element_once ''_original_required'' = Some native_getter \<and>
   installer ''required'' property_getter getter_element_once = Normal getter_element_twice \<and>
   own getter_element_twice ''_original_required'' = Some property_getter \<and>
   property_getter \<noteq> native_getter"
proof -
  have a: "js_in fixed_polyfilled_element ''checkValidity'' \<and>
           marked (js_get fixed_polyfilled_element ''checkValidity'')"
    by (simp add: js_in_def js_get_def js_lookup_def marked_def
          fixed_polyfilled_element_def fixed_polyfill_method_def)
  have b: "installer ''checkValidity'' fixed_polyfill_method fixed_polyfilled_element
           = Throw TypeError fixed_polyfilled_element"
    by (simp add: installer_def needs_backup_def js_in_def js_get_def js_lookup_def
          delete_property_def fixed_polyfilled_element_def fixed_polyfill_method_def)
  have c: "installer ''required'' property_getter getter_element = Normal getter_element_once"
    by (simp add: installer_def needs_backup_def js_in_def js_get_def js_lookup_def
          delete_property_def defineProperty_def getOwnPropertyDescriptor_def original_key_def
          getter_element_def getter_element_once_def native_getter_def fun_upd_twist)
  have d: "installer ''required'' property_getter getter_element_once = Normal getter_element_twice"
    by (simp add: installer_def needs_backup_def js_in_def js_get_def js_lookup_def
          delete_property_def defineProperty_def getOwnPropertyDescriptor_def original_key_def
          getter_element_once_def getter_element_twice_def property_getter_def native_getter_def)
  have e: "own getter_element_once ''_original_required'' = Some native_getter"
          "own getter_element_twice ''_original_required'' = Some property_getter"
          "property_getter \<noteq> native_getter"
    by (simp_all add: getter_element_once_def getter_element_twice_def property_getter_def
          native_getter_def)
  from a b c d e show ?thesis by blast
qed

text \<open>
  Claim C2. The installer is claimed to back up and overwrite for any prior state of the
  property, also an inherited one. On an element whose \<open>checkValidity\<close> is the native
  method of its prototype the guard \<open>property in element\<close> holds, but
  \<open>Object.getOwnPropertyDescriptor\<close> yields \<open>undefined\<close> and
  \<open>Object.defineProperty\<close> throws a TypeError: nothing is backed up and nothing is
  overwritten.
\<close>

theorem installer_inherited_property_throws:
  "js_in inheriting_element ''checkValidity'' \<and>
   own inheriting_element ''checkValidity'' = None \<and>
   installer ''checkValidity'' polyfill_method inheriting_element
     = Throw TypeError inheriting_element"
  by (simp add: installer_def needs_backup_def js_in_def js_get_def js_lookup_def
        inheriting_element_def native_method_def defineProperty_def
        getOwnPropertyDescriptor_def)

section \<open>Wrapper.install and Wrapper.uninstall: lemmas\<close>

lemma own_uninstall_other: "k \<noteq> p \<Longrightarrow> own (state_of (uninstall e p)) k = own e k"
proof -
  assume k: "k \<noteq> p"
  show ?thesis
  proof (cases "delete_property e p")
    case (Normal e1)
    with own_delete_other [OF k, of e] have "own e1 k = own e k" by simp
    with Normal own_define_other [OF k, of e1] show ?thesis
      by (simp add: uninstall_def split: option.splits)
  next
    case (Throw err e1)
    with own_delete_other [OF k, of e] show ?thesis by (simp add: uninstall_def)
  qed
qed

lemma run_all_frame:
  assumes "\<And>f s. f \<in> set fs \<Longrightarrow> g (state_of (f s)) = g s"
  shows "g (state_of (run_all fs e)) = g e"
  using assms
proof (induction fs arbitrary: e)
  case Nil
  then show ?case by simp
next
  case (Cons f fs)
  have step: "g (state_of (f e)) = g e" using Cons.prems by simp
  show ?case
  proof (cases "f e")
    case (Normal s)
    with step Cons.IH [of s] Cons.prems show ?thesis by simp
  next
    case (Throw err s)
    with step show ?thesis by simp
  qed
qed

lemma uninstall_element_frame:
  assumes "k \<notin> {''checkValidity'', ''reportValidity'', ''setCustomValidity'', ''stepDown'',
                  ''stepUp'', ''validationMessage'', ''validity'', ''valueAsDate'',
                  ''valueAsNumber'', ''willValidate''}"
  shows "own (state_of (uninstall_element e)) k = own e k"
  unfolding uninstall_element_def
  by (rule run_all_frame [where g = "\<lambda>s. own s k"])
     (use assms in \<open>auto simp: own_uninstall_other\<close>)

text \<open>
  The uninstaller after the installer, on an own property that was backed up: the original
  descriptor is back under the property's name; the backup stays under the renamed key.
\<close>

lemma uninstall_restores_own_property:
  assumes "own e p = Some cur" "d_configurable cur" "d_configurable d"
    "own e (original_key p) = None" "extensible e"
  shows "uninstall (e\<lparr>own := (own e)(original_key p \<mapsto> cur, p \<mapsto> d)\<rparr>) p
         = Normal (e\<lparr>own := (own e)(original_key p \<mapsto> cur)\<rparr>)"
proof -
  have "(own e)(original_key p \<mapsto> cur, p := None, p \<mapsto> cur) = (own e)(original_key p \<mapsto> cur)"
    using assms(1) original_key_neq [of p] by (auto simp: fun_eq_iff)
  then show ?thesis
    using assms original_key_neq [of p]
    by (simp add: uninstall_def delete_property_def defineProperty_def
          getOwnPropertyDescriptor_def)
qed

text \<open>
  Claim C1. Install followed by uninstall is claimed to be the identity on the element's
  property table, every override of \<open>Wrapper.install\<close> being removed.
  \<open>Wrapper.uninstall\<close> calls the uninstaller for the ten polyfill properties only and
  ends with a TODO for the property getters that \<open>install_properties\<close> defined; by
  \<open>uninstall_element_frame\<close> whatever lives under another key stays. On the bare
  element, with \<open>install_properties\<close> defining the getter \<open>required\<close>, the table
  after install and uninstall holds that getter and is not the empty table it was.
\<close>

theorem Wrapper_uninstall_leaves_property_getters:
  "Wrapper_install (\<lambda>p. polyfill_method) (installer ''required'' property_getter)
     (Single bare_element) = Normal [installed_element] \<and>
   Wrapper_uninstall (Several [installed_element])
     = Normal [bare_element\<lparr>own := Map.empty(''required'' \<mapsto> property_getter)\<rparr>] \<and>
   bare_element\<lparr>own := Map.empty(''required'' \<mapsto> property_getter)\<rparr> \<noteq> bare_element"
proof -
  have inst: "Wrapper_install (\<lambda>p. polyfill_method) (installer ''required'' property_getter)
                (Single bare_element) = Normal [installed_element]"
    by (simp add: Wrapper_install_def install_element_def installer_def needs_backup_def
          js_in_def js_get_def js_lookup_def bare_element_def delete_property_def
          defineProperty_def installed_element_def)
  have uninst: "Wrapper_uninstall (Several [installed_element])
                = Normal [bare_element\<lparr>own := Map.empty(''required'' \<mapsto> property_getter)\<rparr>]"
    by (simp add: Wrapper_uninstall_def uninstall_element_def uninstall_def
          installed_element_def bare_element_def delete_property_def defineProperty_def
          getOwnPropertyDescriptor_def original_key_def polyfill_method_def)
  have neq: "bare_element\<lparr>own := Map.empty(''required'' \<mapsto> property_getter)\<rparr> \<noteq> bare_element"
    by (simp add: bare_element_def)
  from inst uninst neq show ?thesis by blast
qed

section \<open>The hook registry: lemmas\<close>

lemma dispatch_called: "map called (snd (dispatch ctx cs v)) = map cb_id cs"
  by (induction cs arbitrary: v) (simp_all add: Let_def)




lemma dispatch_no_override:
  assumes "\<forall>c \<in> set cs. cb_run c ctx v = VUndefined \<or> cb_run c ctx v = v"
  shows "fst (dispatch ctx cs v) = v"
  using assms by (induction cs) (auto simp: Let_def)

lemma dispatch_snoc:
  "dispatch ctx (cs @ [c]) v =
     (let u = fst (dispatch ctx cs v);
          r = cb_run c ctx u
      in (if r = VUndefined then u else r,
          snd (dispatch ctx cs v) @ [\<lparr>called = cb_id c, bound_this = ctx, arg = u\<rparr>]))"
  by (induction cs arbitrary: v) (simp_all add: Let_def)

lemma registered_add: "registered (add_hook reg name fn) name = registered reg name @ [fn]"
  by (simp add: add_hook_def registered_def)

lemma registered_add_other: "n \<noteq> name \<Longrightarrow> registered (add_hook reg name fn) n = registered reg n"
  by (simp add: add_hook_def registered_def)

lemma registered_remove:
  "registered (remove_hook reg name fn) name = filter (\<lambda>c. cb_id c \<noteq> cb_id fn) (registered reg name)"
  by (simp add: remove_hook_def registered_def split: option.splits)

text \<open>
  Claim C4. \<open>call_hook(name, value)\<close> calls each callback registered under the name,
  once and in order, and returns the value it was given unless a callback overrides it:
  with no callback, or with callbacks that return \<open>undefined\<close> or their argument, the
  result is the input; with a single callback the result is that callback's return value
  if it is not \<open>undefined\<close>, and the input otherwise.
\<close>

theorem call_hook_returns_input:
  "map called (snd (call_hook reg name v)) = map cb_id (registered reg name) \<and>
   (registered reg name = [] \<longrightarrow> call_hook reg name v = (v, [])) \<and>
   ((\<forall>c \<in> set (registered reg name).
        cb_run c \<lparr>state = v, hook = name\<rparr> v = VUndefined \<or>
        cb_run c \<lparr>state = v, hook = name\<rparr> v = v) \<longrightarrow>
      fst (call_hook reg name v) = v) \<and>
   (registered reg name = [c] \<longrightarrow>
      fst (call_hook reg name v) =
        (if cb_run c \<lparr>state = v, hook = name\<rparr> v = VUndefined then v
         else cb_run c \<lparr>state = v, hook = name\<rparr> v))"
  using dispatch_no_override [of "registered reg name" "\<lparr>state = v, hook = name\<rparr>" v]
  by (simp add: call_hook_def dispatch_called Let_def)

text \<open>The first test: one callback that returns its argument, called with 1.\<close>

theorem call_hook_returns_input_witness:
  "registered hooks1 ''hooks1'' = [returns_arg 0] \<and>
   cb_run (returns_arg 0) \<lparr>state = VNum 1, hook = ''hooks1''\<rparr> (VNum 1) = VNum 1 \<and>
   registered hooks1 ''other'' = [] \<and>
   call_hook hooks1 ''other'' (VNum 1) = (VNum 1, []) \<and>
   fst (call_hook hooks1 ''hooks1'' (VNum 1)) = VNum 1 \<and>
   map called (snd (call_hook hooks1 ''hooks1'' (VNum 1))) = [0]"
proof -
  have r: "registered hooks1 ''hooks1'' = [returns_arg 0]"
    by (simp add: hooks1_def registered_def add_hook_def)
  have o: "registered hooks1 ''other'' = []"
    by (simp add: hooks1_def registered_def add_hook_def)
  have run: "cb_run (returns_arg 0) \<lparr>state = VNum 1, hook = ''hooks1''\<rparr> (VNum 1) = VNum 1"
    by (simp add: returns_arg_def)
  from call_hook_returns_input [of hooks1 "''other''" "VNum 1"] o
  have a: "call_hook hooks1 ''other'' (VNum 1) = (VNum 1, [])" by blast
  from call_hook_returns_input [of hooks1 "''hooks1''" "VNum 1"] r run
  have b: "fst (call_hook hooks1 ''hooks1'' (VNum 1)) = VNum 1" by simp
  from call_hook_returns_input [of hooks1 "''hooks1''" "VNum 1"] r
  have c: "map called (snd (call_hook hooks1 ''hooks1'' (VNum 1))) = [0]"
    by (simp add: returns_arg_def)
  from r o run a b c show ?thesis by blast
qed



text \<open>
  Claim C6. After \<open>add_hook(name, fn)\<close> and \<open>remove_hook(name, fn)\<close> a call of the
  hook does not call \<open>fn\<close>: the callbacks called are those registered before, without
  \<open>fn\<close>, in their order. Callbacks are called in the order of their insertion: one
  added is called last, after those registered before it.
\<close>

theorem remove_hook_removes:
  "cb_id fn \<notin> set (map called (snd (call_hook (remove_hook (add_hook reg name fn) name fn) name v))) \<and>
   map called (snd (call_hook (remove_hook (add_hook reg name fn) name fn) name v))
     = filter (\<lambda>i. i \<noteq> cb_id fn) (map cb_id (registered reg name)) \<and>
   map called (snd (call_hook (add_hook reg name fn) name v))
     = map cb_id (registered reg name) @ [cb_id fn] \<and>
   map called (snd (call_hook (add_hook (add_hook reg name fn) name fn') name v))
     = map cb_id (registered reg name) @ [cb_id fn, cb_id fn']"
  by (auto simp: call_hook_def dispatch_called registered_add registered_remove filter_map o_def)

text \<open>The third test: nothing is called.\<close>

lemma hooks3_test:
  "call_hook hooks3 ''hooks3'' (VNum 1) = (VNum 1, [])"
  by (simp add: hooks3_def call_hook_def registered_def add_hook_def remove_hook_def returns_arg_def)


section \<open>The Wrapper constructor: lemmas\<close>

lemma no_revalidation_notin:
  "revalidation_listeners ls = [] \<Longrightarrow> (t, Revalidator, c) \<notin> set ls"
  by (auto simp: revalidation_listeners_def filter_empty_conv)

text \<open>
  The last two statements alone: on listeners without \<open>this.revalidator\<close>, which the
  constructor has just created, they add \<open>keyup\<close> and \<open>change\<close>, not capturing,
  exactly for \<open>oninput\<close> and \<open>hybrid\<close>, a capturing \<open>blur\<close> exactly for
  \<open>onblur\<close> and \<open>hybrid\<close>, and leave the other listeners as they are.
\<close>

lemma add_revalidation_listeners_by_setting:
  assumes "revalidation_listeners ls = []"
  shows "revalidation_listeners (add_revalidation_listeners settings ls) =
           (if field settings ''revalidate'' = VStr ''oninput'' \<or>
               field settings ''revalidate'' = VStr ''hybrid''
            then [(''keyup'', Revalidator, False), (''change'', Revalidator, False)] else []) @
           (if field settings ''revalidate'' = VStr ''onblur'' \<or>
               field settings ''revalidate'' = VStr ''hybrid''
            then [(''blur'', Revalidator, True)] else []) \<and>
         foreign_listeners (add_revalidation_listeners settings ls) = foreign_listeners ls"
proof -
  have notin: "(t, Revalidator, c) \<notin> set ls" for t c
    using assms by (rule no_revalidation_notin)
  show ?thesis
    using notin
    by (auto simp: add_revalidation_listeners_def addEventListener_def
          revalidation_listeners_def foreign_listeners_def filter_empty_conv Let_def)
qed

lemma revalidation_listeners_catch_submit:
  "revalidation_listeners (listeners (catch_submit t)) = revalidation_listeners (listeners t)"
  by (simp add: catch_submit_def revalidation_listeners_def)

lemma lift_Normal: "lift c f = Normal r \<Longrightarrow> \<exists>s. c = Normal s \<and> r = f s"
  by (cases c) auto

lemma listeners_install_controls:
  "install_controls pf ip t = Normal t' \<Longrightarrow> listeners t' = listeners t"
  by (auto simp: install_controls_def dest!: lift_Normal)

lemma listeners_install_self:
  "install_self pf t = Normal t' \<Longrightarrow> listeners t' = listeners t"
  by (auto simp: install_self_def dest!: lift_Normal)

text \<open>
  Where the constructor completes, the listeners of the target are those it had, the two
  of \<open>catch_submit\<close>, and those the last two statements add.
\<close>

lemma construct_Normal_listeners:
  assumes "construct pf ip settings t = Normal t'"
  shows "listeners t' = add_revalidation_listeners settings (listeners (catch_submit t))"
proof -
  from assms obtain t3 where
    mid: "(if kind (catch_submit t) = Window \<or> kind (catch_submit t) = Document
           then andthen (install_controls pf ip (catch_submit t)) (install_self pf)
           else if kind (catch_submit t) = Form \<or> kind (catch_submit t) = FieldSet
           then andthen (install_controls pf ip (catch_submit t))
                  (\<lambda>t2. if kind t2 = Form then install_self pf t2 else Normal t2)
           else Normal (catch_submit t)) = Normal t3"
    and last: "t' = t3\<lparr>listeners := add_revalidation_listeners settings (listeners t3)\<rparr>"
    unfolding construct_def by (auto dest!: andthen_Normal)
  have "listeners t3 = listeners (catch_submit t)"
    using mid listeners_install_controls listeners_install_self
    by (auto split: if_splits dest!: andthen_Normal)
  with last show ?thesis by simp
qed


lemma Wrapper_constructor_completes_listeners:
  assumes "Wrapper_constructor pf ip t settings = Normal w"
    and "revalidation_listeners (listeners t) = []"
  shows "revalidation_listeners (listeners (this_form w)) =
           (if field settings ''revalidate'' = VStr ''oninput'' \<or>
               field settings ''revalidate'' = VStr ''hybrid''
            then [(''keyup'', Revalidator, False), (''change'', Revalidator, False)] else []) @
           (if field settings ''revalidate'' = VStr ''onblur'' \<or>
               field settings ''revalidate'' = VStr ''hybrid''
            then [(''blur'', Revalidator, True)] else [])"
proof -
  from assms(1) obtain t' where run: "construct pf ip settings t = Normal t'"
    and w: "w = \<lparr>this_form = t', this_settings = settings\<rparr>"
    unfolding Wrapper_constructor_def by (auto dest!: lift_Normal)
  have "revalidation_listeners (listeners (catch_submit t)) = []"
    using assms(2) by (simp add: revalidation_listeners_catch_submit)
  from add_revalidation_listeners_by_setting [OF this, of settings]
       construct_Normal_listeners [OF run] w
  show ?thesis by simp
qed

lemma Wrapper_install_inheriting_throws:
  "Wrapper_install (\<lambda>p. polyfill_method) ip (Several [inheriting_element])
   = Throw TypeError [inheriting_element]"
  by (simp add: Wrapper_install_def install_element_def installer_def needs_backup_def
        js_in_def js_get_def js_lookup_def inheriting_element_def native_method_def
        defineProperty_def getOwnPropertyDescriptor_def)

lemma construct_native_form_throws:
  "construct (\<lambda>p. polyfill_method) ip settings native_form
   = Throw TypeError (catch_submit native_form)"
proof -
  have k: "kind (catch_submit native_form) = Form"
    and c: "controls (catch_submit native_form) = [inheriting_element]"
    by (simp_all add: catch_submit_def native_form_def)
  have "install_controls (\<lambda>p. polyfill_method) ip (catch_submit native_form)
        = Throw TypeError (catch_submit native_form)"
    using c by (simp add: install_controls_def Wrapper_install_inheriting_throws)
  with k show ?thesis by (simp add: construct_def)
qed

text \<open>
  Claim C7. The constructor is claimed to attach the revalidation listeners exactly by the
  \<open>revalidate\<close> setting. Its last two statements do, as
  \<open>Wrapper_constructor_completes_listeners\<close> says of every run that reaches them. On a
  form whose control has the native validation API on its prototype the run does not reach
  them: \<open>this.install(form.elements)\<close> throws the TypeError of the property installer,
  and the form is left with the two listeners of \<open>catch_submit\<close> and no revalidation
  listener, although \<open>revalidate\<close> is \<open>hybrid\<close>.
\<close>

theorem Wrapper_constructor_native_form_throws:
  "field [(''revalidate'', VStr ''hybrid'')] ''revalidate'' = VStr ''hybrid'' \<and>
   Wrapper_constructor (\<lambda>p. polyfill_method) (installer ''required'' property_getter)
     native_form [(''revalidate'', VStr ''hybrid'')]
     = Throw TypeError
         \<lparr>this_form = catch_submit native_form,
          this_settings = [(''revalidate'', VStr ''hybrid'')]\<rparr> \<and>
   listeners (catch_submit native_form)
     = [(''click'', Other 0, False), (''keypress'', Other 1, False)] \<and>
   revalidation_listeners (listeners (catch_submit native_form)) = []"
  by (simp add: Wrapper_constructor_def construct_native_form_throws field_def)
     (simp add: catch_submit_def native_form_def revalidation_listeners_def)

text \<open>On a node that is no form the constructor completes, with the listeners of \<open>hybrid\<close>.\<close>

lemma Wrapper_constructor_plain_node:
  "Wrapper_constructor pf ip plain_node [(''revalidate'', VStr ''hybrid'')]
   = Normal
       \<lparr>this_form = plain_node
          \<lparr>listeners :=
             [(''click'', Other 0, False), (''keypress'', Other 1, False),
              (''keyup'', Revalidator, False), (''change'', Revalidator, False),
              (''blur'', Revalidator, True)]\<rparr>,
        this_settings = [(''revalidate'', VStr ''hybrid'')]\<rparr>"
  by (simp add: Wrapper_constructor_def construct_def catch_submit_def plain_node_def
        add_revalidation_listeners_def addEventListener_def field_def)


section \<open>The entry point hyperform: lemmas\<close>

lemma field_settings_literal:
  "field (settings_literal l) ''strict'' = strict l"
  "field (settings_literal l) ''revalidate'' = revalidate l"
  "field (settings_literal l) ''valid_event'' = valid_event l"
  "field (settings_literal l) ''extend_fieldset'' = extend_fieldset l"
  "field (settings_literal l) ''classes'' = classes l"
  "field (settings_literal l) ''novalidate_on_elements'' = VUndefined"
  by (simp_all add: field_def settings_literal_def)

lemma resolved_defined:
  "strict (resolve options) \<noteq> VUndefined"
  "revalidate (resolve options) \<noteq> VUndefined"
  "valid_event (resolve options) \<noteq> VUndefined"
  "extend_fieldset (resolve options) \<noteq> VUndefined"
  "truthy (classes (resolve options))"
  by (simp_all add: resolve_def Let_def)

lemma resolve_settings_literal:
  assumes "strict l \<noteq> VUndefined" "revalidate l \<noteq> VUndefined" "valid_event l \<noteq> VUndefined"
    "extend_fieldset l \<noteq> VUndefined" "truthy (classes l)"
  shows "settings_literal (resolve (settings_literal l)) = settings_literal l"
proof -
  have "strict (resolve (settings_literal l)) = strict l"
       "revalidate (resolve (settings_literal l)) = revalidate l"
       "valid_event (resolve (settings_literal l)) = valid_event l"
       "extend_fieldset (resolve (settings_literal l)) = extend_fieldset l"
       "classes (resolve (settings_literal l)) = classes l"
    using assms by (simp_all add: resolve_def Let_def field_settings_literal)
  then show ?thesis by (simp add: settings_literal_def)
qed

lemma settings_resolved_again:
  "settings_literal (resolve (settings_literal (resolve options))) = settings_literal (resolve options)"
  by (rule resolve_settings_literal) (rule resolved_defined)+

lemma hyperform_resolved:
  "hyperform pf ip t (settings_literal (resolve options)) = hyperform pf ip t options"
  by (cases t) (simp_all add: settings_resolved_again)

lemma default_settings:
  "settings_literal (resolve []) =
     [(''strict'', VBool False), (''revalidate'', VStr ''hybrid''),
      (''valid_event'', VBool True), (''extend_fieldset'', VBool True),
      (''classes'', VObj [])]"
  by (simp add: settings_literal_def resolve_def field_def)

lemma state_of_lift: "state_of (lift c f) = f (state_of c)"
  by (cases c) simp_all

lemma completes_lift: "completes (lift c f) = completes c"
  by (cases c) simp_all

lemma this_settings_constructed:
  "this_settings (state_of (Wrapper_constructor pf ip t settings)) = settings"
  by (simp add: Wrapper_constructor_def state_of_lift)

text \<open>
  Every Wrapper made by a call, returned or made before a throw, stores the resolved
  settings of the call.
\<close>

lemma wrappers_settings:
  "w \<in> set (wrappers (state_of (hyperform pf ip t options))) \<Longrightarrow>
     this_settings w = settings_literal (resolve options)"
  "w \<in> set (concat (map wrappers (state_of (hyperform_members pf ip ms settings)))) \<Longrightarrow>
     this_settings w = settings_literal (resolve settings)"
proof (induction pf ip t options and pf ip ms settings arbitrary: w and w
       rule: hyperform_hyperform_members.induct)
  case (1 pf ip members options)
  from "1.prems" have "w \<in> set (concat (map wrappers (state_of
      (hyperform_members pf ip members (settings_literal (resolve options))))))"
    by (simp add: state_of_lift)
  from "1.IH" [OF this] show ?case by (simp add: settings_resolved_again)
next
  case (2 pf ip t options)
  then show ?case by (simp add: state_of_lift this_settings_constructed)
next
  case (3 pf ip settings)
  then show ?case by simp
next
  case (4 pf ip element rest settings)
  show ?case
  proof (cases "hyperform pf ip element settings")
    case (Throw err r)
    with "4.prems" "4.IH"(1) [of w] show ?thesis by simp
  next
    case (Normal r)
    note first = this
    show ?thesis
    proof (cases "hyperform_members pf ip rest settings")
      case (Normal rs)
      with first "4.prems" "4.IH"(1) [of w] "4.IH"(2) [OF first, of w] show ?thesis by auto
    next
      case (Throw err rs)
      with first "4.prems" "4.IH"(1) [of w] "4.IH"(2) [OF first, of w] show ?thesis by auto
    qed
  qed
qed

lemma map_settings_replicate:
  "map this_settings (wrappers (state_of (hyperform pf ip t options)))
   = replicate (length (wrappers (state_of (hyperform pf ip t options))))
       (settings_literal (resolve options))"
  by (rule replicate_eqI) (auto dest: wrappers_settings(1))

text \<open>One Wrapper per target when the call returns, and never more.\<close>

lemma wrappers_count:
  "(case hyperform pf ip t options of
      Normal r \<Rightarrow> length (wrappers r) = length (nodes t)
    | Throw err r \<Rightarrow> length (wrappers r) \<le> length (nodes t))"
  "(case hyperform_members pf ip ms settings of
      Normal rs \<Rightarrow> length (concat (map wrappers rs)) = length (concat (map nodes ms))
    | Throw err rs \<Rightarrow> length (concat (map wrappers rs)) \<le> length (concat (map nodes ms)))"
proof (induction pf ip t options and pf ip ms settings
       rule: hyperform_hyperform_members.induct)
  case (1 pf ip members options)
  then show ?case
    by (cases "hyperform_members pf ip members (settings_literal (resolve options))") simp_all
next
  case (2 pf ip t options)
  then show ?case
    by (cases "Wrapper_constructor pf ip t (settings_literal (resolve options))") simp_all
next
  case (3 pf ip settings)
  then show ?case by simp
next
  case (4 pf ip element rest settings)
  show ?case
  proof (cases "hyperform pf ip element settings")
    case (Throw err r)
    with "4.IH"(1) show ?thesis by simp
  next
    case (Normal r)
    with "4.IH"(1) "4.IH"(2) [OF Normal] show ?thesis
      by (cases "hyperform_members pf ip rest settings") simp_all
  qed
qed


lemma completes_members:
  "(\<forall>m \<in> set ms. completes (hyperform pf ip m settings)) \<Longrightarrow>
   completes (hyperform_members pf ip ms settings)"
  by (induction ms) (auto split: completion.splits)

text \<open>
  Claim C8. \<open>hyperform\<close> is claimed to return one Wrapper for a single target and an
  array with one result per member for a collection. Given a form whose control has the
  native validation API on its prototype, the constructor throws the TypeError of the
  property installer and \<open>hyperform\<close> returns nothing; given a collection with that
  form first, it throws at the first member and the second is not visited.
\<close>

theorem hyperform_native_form_throws:
  "hyperform (\<lambda>p. polyfill_method) (installer ''required'' property_getter) (Node native_form) []
     = Throw TypeError
         (NewWrapper \<lparr>this_form = catch_submit native_form,
                      this_settings = settings_literal (resolve [])\<rparr>) \<and>
   hyperform (\<lambda>p. polyfill_method) (installer ''required'' property_getter)
     (Collection [Node native_form, Node plain_node]) []
     = Throw TypeError
         (Array [NewWrapper \<lparr>this_form = catch_submit native_form,
                             this_settings = settings_literal (resolve [])\<rparr>])"
  by (simp add: Wrapper_constructor_def construct_native_form_throws settings_resolved_again)

text \<open>
  On a node that is no form \<open>hyperform\<close> returns the Wrapper, with the default settings
  for no options.
\<close>

lemma hyperform_plain_node:
  "hyperform pf ip (Node plain_node) []
   = Normal
       (NewWrapper
          \<lparr>this_form = plain_node
             \<lparr>listeners :=
                [(''click'', Other 0, False), (''keypress'', Other 1, False),
                 (''keyup'', Revalidator, False), (''change'', Revalidator, False),
                 (''blur'', Revalidator, True)]\<rparr>,
           this_settings =
             [(''strict'', VBool False), (''revalidate'', VStr ''hybrid''),
              (''valid_event'', VBool True), (''extend_fieldset'', VBool True),
              (''classes'', VObj [])]\<rparr>)"
  by (simp add: default_settings Wrapper_constructor_def construct_def catch_submit_def
        plain_node_def add_revalidation_listeners_def addEventListener_def field_def)

lemma field_Cons_other: "k' \<noteq> k \<Longrightarrow> field ((k, v) # ps) k' = field ps k'"
  by (simp add: field_def)

lemma settings_ignore_novalidate_on_elements:
  "settings_literal (resolve ((''novalidate_on_elements'', v) # options))
   = settings_literal (resolve options)"
  by (simp add: settings_literal_def resolve_def Let_def field_Cons_other)


text \<open>
  Claim C9. The settings object has exactly the fields \<open>strict\<close>, \<open>revalidate\<close>,
  \<open>valid_event\<close>, \<open>extend_fieldset\<close> and \<open>classes\<close>, and no field
  \<open>novalidate_on_elements\<close>. Every Wrapper a call makes, whether the call returns it or
  a constructor throws after storing the settings, holds exactly the resolved settings,
  with these five fields; a call that returns has made one Wrapper per target. The option
  \<open>novalidate_on_elements\<close> is read and defaulted into a local variable, and whatever
  value it is given the outcome of \<open>hyperform\<close> is the same.
\<close>

theorem settings_without_novalidate_on_elements:
  "map fst (settings_literal (resolve options))
     = [''strict'', ''revalidate'', ''valid_event'', ''extend_fieldset'', ''classes''] \<and>
   field (settings_literal (resolve options)) ''novalidate_on_elements'' = VUndefined \<and>
   map this_settings (wrappers (state_of (hyperform pf ip t options)))
     = replicate (length (wrappers (state_of (hyperform pf ip t options))))
         (settings_literal (resolve options)) \<and>
   map (\<lambda>w. map fst (this_settings w)) (wrappers (state_of (hyperform pf ip t options)))
     = replicate (length (wrappers (state_of (hyperform pf ip t options))))
         [''strict'', ''revalidate'', ''valid_event'', ''extend_fieldset'', ''classes''] \<and>
   (case hyperform pf ip t options of
      Normal r \<Rightarrow> length (wrappers r) = length (nodes t)
    | Throw err r \<Rightarrow> length (wrappers r) \<le> length (nodes t)) \<and>
   novalidate_on_elements (resolve options)
     = (if field options ''novalidate_on_elements'' = VUndefined
        then VBool (\<not> truthy (strict (resolve options)))
        else field options ''novalidate_on_elements'') \<and>
   hyperform pf ip t ((''novalidate_on_elements'', v) # options) = hyperform pf ip t options"
proof -
  have keys: "map fst (settings_literal (resolve options))
              = [''strict'', ''revalidate'', ''valid_event'', ''extend_fieldset'', ''classes'']"
    by (simp add: settings_literal_def)
  have "map (\<lambda>w. map fst (this_settings w)) (wrappers (state_of (hyperform pf ip t options)))
        = map (map fst) (map this_settings (wrappers (state_of (hyperform pf ip t options))))"
    by (simp add: o_def)
  then have stored: "map (\<lambda>w. map fst (this_settings w)) (wrappers (state_of (hyperform pf ip t options)))
     = replicate (length (wrappers (state_of (hyperform pf ip t options))))
         [''strict'', ''revalidate'', ''valid_event'', ''extend_fieldset'', ''classes'']"
    by (simp only: map_settings_replicate map_replicate keys)
  have local: "novalidate_on_elements (resolve options)
     = (if field options ''novalidate_on_elements'' = VUndefined
        then VBool (\<not> truthy (strict (resolve options)))
        else field options ''novalidate_on_elements'')"
    by (simp add: resolve_def Let_def)
  have dropped: "hyperform pf ip t ((''novalidate_on_elements'', v) # options) = hyperform pf ip t options"
    by (cases t) (simp_all add: settings_ignore_novalidate_on_elements)
  from keys stored local dropped
       map_settings_replicate [where pf = pf and ip = ip and t = t and options = options]
       wrappers_count(1) [where pf = pf and ip = ip and t = t and options = options]
  show ?thesis
    by (simp add: field_settings_literal)
qed

text \<open>A collection of two nodes that are no forms, with the option given: two Wrappers.\<close>

theorem settings_without_novalidate_on_elements_witness:
  "completes (hyperform (\<lambda>p. polyfill_method) (installer ''required'' property_getter)
                (Collection [Node plain_node, Node plain_node])
                [(''novalidate_on_elements'', VBool True)]) \<and>
   map (\<lambda>w. map fst (this_settings w))
     (wrappers (state_of
        (hyperform (\<lambda>p. polyfill_method) (installer ''required'' property_getter)
           (Collection [Node plain_node, Node plain_node])
           [(''novalidate_on_elements'', VBool True)])))
     = [[''strict'', ''revalidate'', ''valid_event'', ''extend_fieldset'', ''classes''],
        [''strict'', ''revalidate'', ''valid_event'', ''extend_fieldset'', ''classes'']]"
proof -
  let ?h = "hyperform (\<lambda>p. polyfill_method) (installer ''required'' property_getter)
              (Collection [Node plain_node, Node plain_node])
              [(''novalidate_on_elements'', VBool True)]"
  have plain: "completes (construct pf ip settings plain_node)" for pf ip settings
    by (simp add: construct_def catch_submit_def plain_node_def)
  have one: "completes (hyperform pf ip (Node plain_node) options)" for pf ip options
    by (simp add: completes_lift Wrapper_constructor_def plain)
  have "completes (hyperform_members (\<lambda>p. polyfill_method)
                      (installer ''required'' property_getter) [Node plain_node, Node plain_node]
                      (settings_literal (resolve [(''novalidate_on_elements'', VBool True)])))"
    by (rule completes_members) (simp add: one del: hyperform.simps)
  then have fin: "completes ?h"
    by (simp add: completes_lift del: hyperform_members.simps)
  then obtain r where r: "?h = Normal r" by (cases ?h) simp_all
  from settings_without_novalidate_on_elements
         [where options = "[(''novalidate_on_elements'', VBool True)]"
            and pf = "\<lambda>p. polyfill_method"
            and ip = "installer ''required'' property_getter"
            and t = "Collection [Node plain_node, Node plain_node]"] r
  have "length (wrappers r) = 2"
    and "map (\<lambda>w. map fst (this_settings w)) (wrappers r)
         = replicate (length (wrappers r))
             [''strict'', ''revalidate'', ''valid_event'', ''extend_fieldset'', ''classes'']"
    by simp_all
  then have "map (\<lambda>w. map fst (this_settings w)) (wrappers r)
     = [[''strict'', ''revalidate'', ''valid_event'', ''extend_fieldset'', ''classes''],
        [''strict'', ''revalidate'', ''valid_event'', ''extend_fieldset'', ''classes'']]"
    by (simp add: numeral_2_eq_2)
  with fin r show ?thesis by simp
qed

section \<open>Catching implicit submission: lemmas\<close>

lemma find_submit_Some:
  "find_submit ts k = Some i \<Longrightarrow>
   k \<le> i \<and> i - k < length ts \<and> (ts ! (i - k) = ''image'' \<or> ts ! (i - k) = ''submit'') \<and>
   (\<forall>j < i - k. ts ! j \<noteq> ''image'' \<and> ts ! j \<noteq> ''submit'')"
proof (induction ts arbitrary: k)
  case Nil
  then show ?case by simp
next
  case (Cons t ts)
  show ?case
  proof (cases "t = ''image'' \<or> t = ''submit''")
    case True
    with Cons.prems show ?thesis by auto
  next
    case False
    with Cons.prems have rec: "find_submit ts (Suc k) = Some i" by auto
    from Cons.IH [OF rec] have ih: "Suc k \<le> i" "i - Suc k < length ts"
      "ts ! (i - Suc k) = ''image'' \<or> ts ! (i - Suc k) = ''submit''"
      "\<forall>j < i - Suc k. ts ! j \<noteq> ''image'' \<and> ts ! j \<noteq> ''submit''"
      by blast+
    from ih(1) have split: "i - k = Suc (i - Suc k)" by arith
    have "\<forall>j < i - k. (t # ts) ! j \<noteq> ''image'' \<and> (t # ts) ! j \<noteq> ''submit''"
    proof (intro allI impI)
      fix j assume "j < i - k"
      then show "(t # ts) ! j \<noteq> ''image'' \<and> (t # ts) ! j \<noteq> ''submit''"
        using False ih(4) split by (cases j) auto
    qed
    with ih split show ?thesis by auto
  qed
qed

lemma find_submit_None:
  "(find_submit ts k = None) = (\<forall>t \<in> set ts. t \<noteq> ''image'' \<and> t \<noteq> ''submit'')"
  by (induction ts arbitrary: k) auto

text \<open>
  Claim C10, amended. For a keypress of Enter whose default action has not been prevented
  already, on a text-type input in a form without \<open>novalidate\<close>: if the form has an
  element of type \<open>image\<close> or \<open>submit\<close>, the listener prevents the default action and
  clicks the first such element in the order of \<open>form.elements\<close>; if it has none, the
  listener prevents the default action, validates the form and submits it on success; and
  it submits the form only in that case.
\<close>

theorem keypress_listener_enter:
  assumes "\<not> defaultPrevented ev" "keyCode ev = 13" "nodeName (target ev) = ''INPUT''"
    "type_attr (target ev) \<in> set text_types" "form (target ev) = Some f" "\<not> novalidate f"
  shows "((\<exists>t \<in> set (elements f). t = ''image'' \<or> t = ''submit'') \<longrightarrow>
            (\<exists>i < length (elements f).
               (elements f ! i = ''image'' \<or> elements f ! i = ''submit'') \<and>
               (\<forall>j < i. elements f ! j \<noteq> ''image'' \<and> elements f ! j \<noteq> ''submit'') \<and>
               keypress_listener text_types reportValidity ev = [PreventDefault, Click i])) \<and>
         ((\<forall>t \<in> set (elements f). t \<noteq> ''image'' \<and> t \<noteq> ''submit'') \<longrightarrow>
            keypress_listener text_types reportValidity ev
              = [PreventDefault, ReportValidity] @ (if reportValidity f then [Submit] else [])) \<and>
         ((Submit \<in> set (keypress_listener text_types reportValidity ev)) =
            ((\<forall>t \<in> set (elements f). t \<noteq> ''image'' \<and> t \<noteq> ''submit'') \<and> reportValidity f))"
proof (cases "find_submit (elements f) 0")
  case None
  then have no: "\<forall>t \<in> set (elements f). t \<noteq> ''image'' \<and> t \<noteq> ''submit''"
    by (simp add: find_submit_None)
  from None assms have "keypress_listener text_types reportValidity ev
      = [PreventDefault, ReportValidity] @ (if reportValidity f then [Submit] else [])"
    by (simp add: keypress_listener_def check_def)
  with no show ?thesis by auto
next
  case (Some i)
  from find_submit_Some [OF Some]
  have i: "i < length (elements f)" "elements f ! i = ''image'' \<or> elements f ! i = ''submit''"
    "\<forall>j < i. elements f ! j \<noteq> ''image'' \<and> elements f ! j \<noteq> ''submit''"
    by simp_all
  from Some assms have run: "keypress_listener text_types reportValidity ev = [PreventDefault, Click i]"
    by (simp add: keypress_listener_def)
  from i(1,2) have ex: "\<exists>t \<in> set (elements f). t = ''image'' \<or> t = ''submit''"
    using nth_mem by blast
  from i run ex show ?thesis by auto
qed

text \<open>
  Claim C10 as stated, for every keypress of Enter: when the default action of the event
  has been prevented before the listener runs, the listener does nothing, although the
  form has a submit button.
\<close>

theorem keypress_listener_prevented_counterexample:
  "keyCode (enter_key True form_with_button) = 13 \<and>
   nodeName (target (enter_key True form_with_button)) = ''INPUT'' \<and>
   type_attr (target (enter_key True form_with_button)) \<in> set [''text''] \<and>
   form (target (enter_key True form_with_button)) = Some form_with_button \<and>
   \<not> novalidate form_with_button \<and>
   elements form_with_button ! 1 = ''submit'' \<and>
   keypress_listener [''text''] (\<lambda>f. True) (enter_key True form_with_button) = []"
  by (simp add: enter_key_def form_with_button_def keypress_listener_def)


text \<open>Enter in a form with a submit button at index 1, and in a form without one.\<close>

theorem keypress_listener_enter_witness:
  "\<not> defaultPrevented (enter_key False form_with_button) \<and>
   keyCode (enter_key False form_with_button) = 13 \<and>
   nodeName (target (enter_key False form_with_button)) = ''INPUT'' \<and>
   type_attr (target (enter_key False form_with_button)) \<in> set [''text''] \<and>
   form (target (enter_key False form_with_button)) = Some form_with_button \<and>
   \<not> novalidate form_with_button \<and>
   keypress_listener [''text''] (\<lambda>f. True) (enter_key False form_with_button)
     = [PreventDefault, Click 1] \<and>
   form (target (enter_key False form_without_button)) = Some form_without_button \<and>
   keypress_listener [''text''] (\<lambda>f. True) (enter_key False form_without_button)
     = [PreventDefault, ReportValidity, Submit]"
proof -
  let ?ev = "enter_key False form_with_button"
  let ?ev' = "enter_key False form_without_button"
  have h: "\<not> defaultPrevented ?ev" "keyCode ?ev = 13" "nodeName (target ?ev) = ''INPUT''"
    "type_attr (target ?ev) \<in> set [''text'']" "form (target ?ev) = Some form_with_button"
    "\<not> novalidate form_with_button"
    by (simp_all add: enter_key_def form_with_button_def)
  have h': "\<not> defaultPrevented ?ev'" "keyCode ?ev' = 13" "nodeName (target ?ev') = ''INPUT''"
    "type_attr (target ?ev') \<in> set [''text'']" "form (target ?ev') = Some form_without_button"
    "\<not> novalidate form_without_button"
    by (simp_all add: enter_key_def form_without_button_def)
  have button: "\<exists>t \<in> set (elements form_with_button). t = ''image'' \<or> t = ''submit''"
    by (simp add: form_with_button_def)
  have none: "\<forall>t \<in> set (elements form_without_button). t \<noteq> ''image'' \<and> t \<noteq> ''submit''"
    by (simp add: form_without_button_def)
  from keypress_listener_enter [OF h, of "\<lambda>f. True"] button
  obtain i where i: "i < length (elements form_with_button)"
      "elements form_with_button ! i = ''image'' \<or> elements form_with_button ! i = ''submit''"
      "\<forall>j < i. elements form_with_button ! j \<noteq> ''image'' \<and> elements form_with_button ! j \<noteq> ''submit''"
      "keypress_listener [''text''] (\<lambda>f. True) ?ev = [PreventDefault, Click i]"
    by blast
  have at0: "elements form_with_button ! 0 = ''text''" and at1: "elements form_with_button ! 1 = ''submit''"
    by (simp_all add: form_with_button_def)
  from i(3) at1 have "\<not> 1 < i" by auto
  moreover have "i \<noteq> 0"
  proof
    assume "i = 0"
    with i(2) at0 show False by simp
  qed
  ultimately have "i = 1" by arith
  with i(4) have click: "keypress_listener [''text''] (\<lambda>f. True) ?ev = [PreventDefault, Click 1]"
    by simp
  from keypress_listener_enter [OF h', of "\<lambda>f. True"] none
  have submit: "keypress_listener [''text''] (\<lambda>f. True) ?ev' = [PreventDefault, ReportValidity, Submit]"
    by simp
  from h h'(5) click submit show ?thesis by blast
qed

end
